theory Spec2Isabelle
  imports Complex_Main
begin

section \<open>Temperature-ramp controller (PID_control_NOT-COMPLETE.py)\<close>

text \<open>
  The controller is the body of \<open>control_loop\<close>: a five-state machine that, once per
  30 s period, appends the period's absorbance readings to a bounded history, takes the
  regression slope of the last 30 s and updates the temperature target and the ramp rate.
  Python floats are modelled as exact reals (no rounding, no NaN or infinity); the clock
  \<open>time.time()\<close> and the sensor are inputs of each tick.
\<close>

subsection \<open>Configuration\<close>

definition START_TEMP :: real where "START_TEMP = 45"
definition MAX_TEMP :: real where "MAX_TEMP = 100"
definition MAX_RAMP :: real where "MAX_RAMP = 10"
definition FAST_RAMP :: real where "FAST_RAMP = 2"
definition COOL_RAMP :: real where "COOL_RAMP = - 1"

definition CHECK_PERIOD_S :: real where "CHECK_PERIOD_S = 30"
definition SLOPE_WIN_SEC :: real where "SLOPE_WIN_SEC = 30"
definition EXPECTED_MAX_ABS :: real where "EXPECTED_MAX_ABS = 1"
definition SWITCH_TIME_HRS :: real where "SWITCH_TIME_HRS = 5"
definition S_REF :: real where "S_REF = EXPECTED_MAX_ABS / (SWITCH_TIME_HRS * 60)"

definition STABILITY_WINDOW_MIN :: real where "STABILITY_WINDOW_MIN = 10"
definition STABILITY_MAX_RANGE_AU :: real where "STABILITY_MAX_RANGE_AU = 5 / 100"
definition STABILITY_MAX_SLOPE :: real where "STABILITY_MAX_SLOPE = 5 / 1000"
definition PLATEAU_TICKS :: nat where "PLATEAU_TICKS = 3"

definition HISTORY_MAXLEN :: nat where "HISTORY_MAXLEN = 100000"

lemmas config_defs =
  START_TEMP_def MAX_TEMP_def MAX_RAMP_def FAST_RAMP_def COOL_RAMP_def CHECK_PERIOD_S_def
  SLOPE_WIN_SEC_def EXPECTED_MAX_ABS_def SWITCH_TIME_HRS_def S_REF_def
  STABILITY_WINDOW_MIN_def STABILITY_MAX_RANGE_AU_def STABILITY_MAX_SLOPE_def
  PLATEAU_TICKS_def

subsection \<open>Data utilities\<close>

text \<open>A history entry is a pair \<open>(t, a)\<close>: the time of the reading and the absorbance.\<close>

type_synonym reading = "real \<times> real"

text \<open>
  \<open>slope_over_window\<close>: the readings not older than \<open>window_sec\<close>, at least six of
  them, regressed against the minutes elapsed since the first of them; \<open>None\<close> for
  fewer than six readings and for a zero denominator. \<open>now\<close> is what \<open>time.time()\<close>
  returns inside the call.
\<close>

definition slope_over_window :: "reading list \<Rightarrow> real \<Rightarrow> real \<Rightarrow> real option" where
  "slope_over_window history now window_sec =
     (let cutoff = now - window_sec;
          pts = filter (\<lambda>(t, a). t \<ge> cutoff) history
      in if length pts < 6 then None
         else
           (let t0 = fst (hd pts);
                xs = map (\<lambda>(t, _). (t - t0) / 60) pts;
                ys = map (\<lambda>(_, a). a) pts;
                n = real (length xs);
                mx = sum_list xs / n;
                my = sum_list ys / n;
                num = sum_list (map (\<lambda>(x, y). (x - mx) * (y - my)) (zip xs ys));
                den = sum_list (map (\<lambda>x. (x - mx)\<^sup>2) xs)
            in if den \<noteq> 0 then Some (num / den) else None))"

fun max_of :: "real list \<Rightarrow> real" where
  "max_of [] = 0"
| "max_of [x] = x"
| "max_of (x # y # ys) = max x (max_of (y # ys))"

fun min_of :: "real list \<Rightarrow> real" where
  "min_of [] = 0"
| "min_of [x] = x"
| "min_of (x # y # ys) = min x (min_of (y # ys))"

text \<open>
  \<open>range_over_window\<close>: largest minus smallest absorbance of the last
  \<open>window_min\<close> minutes; \<open>None\<close> when no reading is that recent (the two list
  functions above are only called on a non-empty list).
\<close>

definition range_over_window :: "reading list \<Rightarrow> real \<Rightarrow> real \<Rightarrow> real option" where
  "range_over_window history now window_min =
     (let cutoff = now - window_min * 60;
          vals = map snd (filter (\<lambda>(t, a). t \<ge> cutoff) history)
      in if vals \<noteq> [] then Some (max_of vals - min_of vals) else None)"

text \<open>
  Python's \<open>v or 0.0\<close> on an optional float: \<open>None\<close> and \<open>0.0\<close> are both falsy and
  give \<open>0.0\<close>; any other float is kept.
\<close>

definition or_zero :: "real option \<Rightarrow> real" where
  "or_zero v = (case v of None \<Rightarrow> 0 | Some x \<Rightarrow> (if x = 0 then 0 else x))"

subsection \<open>Controller state\<close>

datatype phase = STATE_LINEAR | STATE_NONLINEAR | STATE_HOLD | STATE_COOL | STATE_DONE

text \<open>
  The local variables of \<open>control_loop\<close> that live across iterations. \<open>integral\<close> and
  \<open>prev_error\<close> are bound together (lines 173 and 174) and never unbound, so the model
  keeps them as one optional pair \<open>pid\<close>: \<open>None\<close> while \<open>"integral" not in locals()\<close>
  holds.
\<close>

record ctx =
  state :: phase
  history :: "reading list"
  temp :: real
  ramp :: real
  plateau_counter :: nat
  pid :: "(real \<times> real) option"
  notes_out :: string

text \<open>
  What one iteration reads from the outside: the readings appended by the polling loop
  during the period, and the clock as read by the three window queries (lines 156, 216
  and 217).
\<close>

record tick_input =
  readings :: "reading list"
  now_slope :: real
  now_range :: real
  now_s10 :: real

definition init :: ctx where
  "init = \<lparr> state = STATE_LINEAR, history = [], temp = START_TEMP, ramp = FAST_RAMP,
            plateau_counter = 0, pid = None, notes_out = [] \<rparr>"

text \<open>\<open>deque(maxlen=100000)\<close>: appending beyond the capacity drops the oldest entries.\<close>

definition collect :: "reading list \<Rightarrow> reading list \<Rightarrow> reading list" where
  "collect h new = (let h' = h @ new in drop (length h' - HISTORY_MAXLEN) h')"

text \<open>The arrow of the transition notes, as its three UTF-8 bytes.\<close>

definition arrow :: string where
  "arrow = [CHR 0xE2, CHR 0x86, CHR 0x92]"

subsection \<open>The state logic of one tick\<close>

definition linear_branch :: "ctx \<Rightarrow> real \<Rightarrow> ctx" where
  "linear_branch c s_meas =
     (let ramp1 = FAST_RAMP;
          temp1 = temp c + ramp1 * (CHECK_PERIOD_S / 60)
      in if s_meas \<ge> S_REF then
           (let ramp2 = 0;
                temp2 = temp1 - 2 * ramp2 * (CHECK_PERIOD_S / 60)
            in c\<lparr>state := STATE_NONLINEAR, ramp := ramp2, temp := temp2,
                 notes_out := arrow @ '' proportional control''\<rparr>)
         else c\<lparr>ramp := ramp1, temp := temp1\<rparr>)"

definition nonlinear_branch :: "ctx \<Rightarrow> real \<Rightarrow> ctx" where
  "nonlinear_branch c s_meas =
     (let (integral0, prev_error0) = (case pid c of None \<Rightarrow> (0, 0) | Some p \<Rightarrow> p);
          e = S_REF - s_meas;
          dt_min = CHECK_PERIOD_S / 60;
          Kp_pid = 80;
          Ki_pid = 10;
          Kd_pid = 5;
          integral1 = integral0 + e * dt_min;
          derivative = (e - prev_error0) / dt_min;
          integral2 = max (min integral1 (1 / 100)) (- (1 / 100));
          ramp1 = Kp_pid * e + Ki_pid * integral2 + Kd_pid * derivative;
          ramp2 = max (- 10) (min MAX_RAMP ramp1);
          temp1 = temp c + ramp2 * dt_min;
          temp2 = max START_TEMP (min MAX_TEMP temp1);
          prev_error1 = e;
          plateau_counter1 =
            (if (temp2 \<ge> MAX_TEMP \<and> ramp2 > 0) \<or> (ramp2 \<ge> MAX_RAMP \<and> e > 0)
             then plateau_counter c + 1 else 0);
          c1 = c\<lparr>pid := Some (integral2, prev_error1), ramp := ramp2, temp := temp2,
                 plateau_counter := plateau_counter1\<rparr>
      in if plateau_counter1 \<ge> PLATEAU_TICKS then
           c1\<lparr>state := STATE_HOLD, ramp := 0, temp := MAX_TEMP,
              notes_out := ''Reached limit '' @ arrow @ '' HOLD''\<rparr>
         else c1)"

definition hold_branch :: "ctx \<Rightarrow> real \<Rightarrow> real \<Rightarrow> ctx" where
  "hold_branch c t_range t_s10 =
     (let c1 = c\<lparr>ramp := 0, temp := MAX_TEMP\<rparr>;
          rng = range_over_window (history c) t_range STABILITY_WINDOW_MIN;
          s10 = or_zero (slope_over_window (history c) t_s10 (STABILITY_WINDOW_MIN * 60))
      in case rng of
           None \<Rightarrow> c1
         | Some r \<Rightarrow>
             if r < STABILITY_MAX_RANGE_AU \<and> \<bar>s10\<bar> < STABILITY_MAX_SLOPE then
               c1\<lparr>state := STATE_COOL, ramp := COOL_RAMP, temp := START_TEMP,
                  notes_out := ''Stable '' @ arrow @ '' COOL''\<rparr>
             else c1)"

definition cool_branch :: "ctx \<Rightarrow> ctx" where
  "cool_branch c =
     (let c1 = c\<lparr>ramp := COOL_RAMP, temp := START_TEMP\<rparr>
      in if temp c1 \<le> START_TEMP then
           c1\<lparr>temp := START_TEMP, ramp := 0, state := STATE_DONE,
              notes_out := ''Reached 20 '' @ [CHR 0xC2, CHR 0xB0] @ ''C '' @ arrow @ '' done.''\<rparr>
         else c1)"

text \<open>The slope fed to the state logic (line 156), on the history as the tick sees it.\<close>

definition s_meas :: "ctx \<Rightarrow> tick_input \<Rightarrow> real" where
  "s_meas c inp =
     or_zero (slope_over_window (collect (history c) (readings inp)) (now_slope inp)
       SLOPE_WIN_SEC)"

text \<open>
  One iteration of the \<open>while True\<close> loop: collect the readings, clear the note, run
  the branch of the current state. No branch is taken in \<open>STATE_DONE\<close>. The median
  \<open>A_med\<close> only reaches the log line, and the two commands and the log line are
  printed from \<open>ramp\<close>, \<open>temp\<close>, \<open>state\<close> and the note of the resulting context;
  they are not modelled.
\<close>

definition tick :: "ctx \<Rightarrow> tick_input \<Rightarrow> ctx" where
  "tick c inp =
     (let c0 = c\<lparr>history := collect (history c) (readings inp), notes_out := []\<rparr>
      in case state c of
           STATE_LINEAR \<Rightarrow> linear_branch c0 (s_meas c inp)
         | STATE_NONLINEAR \<Rightarrow> nonlinear_branch c0 (s_meas c inp)
         | STATE_HOLD \<Rightarrow> hold_branch c0 (now_range inp) (now_s10 inp)
         | STATE_COOL \<Rightarrow> cool_branch c0
         | STATE_DONE \<Rightarrow> c0)"

text \<open>
  The loop itself, on the finite prefix of inputs it is given: it leaves (\<open>break\<close>) after
  the tick that ends in \<open>STATE_DONE\<close>. \<open>loop_trace\<close> lists the context after each
  tick the loop runs.
\<close>

fun control_loop :: "ctx \<Rightarrow> tick_input list \<Rightarrow> ctx" where
  "control_loop c [] = c"
| "control_loop c (i # inps) =
     (let c' = tick c i in if state c' = STATE_DONE then c' else control_loop c' inps)"

fun loop_trace :: "ctx \<Rightarrow> tick_input list \<Rightarrow> ctx list" where
  "loop_trace c [] = []"
| "loop_trace c (i # inps) =
     (let c' = tick c i in c' # (if state c' = STATE_DONE then [] else loop_trace c' inps))"

subsection \<open>Notions of the specification\<close>

text \<open>
  The order of the phases: \<open>advances a b\<close> holds when \<open>b\<close> is the phase right after
  \<open>a\<close>. A list of phases is a forward chain when each phase is followed by itself or by
  the next one, and nothing follows \<open>STATE_DONE\<close>.
\<close>

fun advances :: "phase \<Rightarrow> phase \<Rightarrow> bool" where
  "advances STATE_LINEAR b = (b = STATE_NONLINEAR)"
| "advances STATE_NONLINEAR b = (b = STATE_HOLD)"
| "advances STATE_HOLD b = (b = STATE_COOL)"
| "advances STATE_COOL b = (b = STATE_DONE)"
| "advances STATE_DONE b = False"

fun forward_chain :: "phase list \<Rightarrow> bool" where
  "forward_chain (a # b # rest) =
     (a \<noteq> STATE_DONE \<and> (b = a \<or> advances a b) \<and> forward_chain (b # rest))"
| "forward_chain _ = True"

text \<open>Clamping a value to the interval from \<open>lo\<close> to \<open>hi\<close>, as the specification words it.\<close>

definition clamp_to :: "real \<Rightarrow> real \<Rightarrow> real \<Rightarrow> real" where
  "clamp_to lo hi x = (if x < lo then lo else if hi < x then hi else x)"

text \<open>
  The PID update of the specification (section 4.3), with the gains 80, 10 and 5 and
  the tick length \<open>dt_minutes\<close> of half a minute. \<open>integral_in\<close> and \<open>prev_error_in\<close>
  are the accumulator and the previous error the update starts from: the stored ones,
  or zero when none is stored yet.
\<close>

definition dt_minutes :: real where
  "dt_minutes = 1 / 2"

definition integral_in :: "ctx \<Rightarrow> real" where
  "integral_in c = (case pid c of None \<Rightarrow> 0 | Some (i, p) \<Rightarrow> i)"

definition prev_error_in :: "ctx \<Rightarrow> real" where
  "prev_error_in c = (case pid c of None \<Rightarrow> 0 | Some (i, p) \<Rightarrow> p)"

definition spec_error :: "ctx \<Rightarrow> tick_input \<Rightarrow> real" where
  "spec_error c inp = S_REF - s_meas c inp"

definition spec_integral :: "ctx \<Rightarrow> tick_input \<Rightarrow> real" where
  "spec_integral c inp =
     clamp_to (- (1 / 100)) (1 / 100) (integral_in c + spec_error c inp * dt_minutes)"

definition spec_derivative :: "ctx \<Rightarrow> tick_input \<Rightarrow> real" where
  "spec_derivative c inp = (spec_error c inp - prev_error_in c) / dt_minutes"

definition spec_ramp :: "ctx \<Rightarrow> tick_input \<Rightarrow> real" where
  "spec_ramp c inp =
     clamp_to (- 10) MAX_RAMP
       (80 * spec_error c inp + 10 * spec_integral c inp + 5 * spec_derivative c inp)"

definition spec_temp_target :: "ctx \<Rightarrow> tick_input \<Rightarrow> real" where
  "spec_temp_target c inp =
     clamp_to START_TEMP MAX_TEMP (temp c + spec_ramp c inp * dt_minutes)"

text \<open>
  A tick qualifies for the plateau counter when the target is at \<open>MAX_TEMP\<close> with a
  positive ramp, or the ramp is at \<open>MAX_RAMP\<close> with a positive error.
\<close>

definition plateau_qualifies :: "ctx \<Rightarrow> tick_input \<Rightarrow> bool" where
  "plateau_qualifies c inp \<longleftrightarrow>
     spec_temp_target c inp = MAX_TEMP \<and> 0 < spec_ramp c inp \<or>
     spec_ramp c inp = MAX_RAMP \<and> 0 < spec_error c inp"

text \<open>
  The slope statistic of the specification (section 4.1): the readings of the window,
  the variance of their times, and the least-squares slope of the values against the
  minutes elapsed since the earliest time of the window.
\<close>

definition in_window :: "reading list \<Rightarrow> real \<Rightarrow> real \<Rightarrow> reading list" where
  "in_window h now window_sec = filter (\<lambda>(t, a). now - window_sec \<le> t) h"

definition mean :: "real list \<Rightarrow> real" where
  "mean xs = sum_list xs / real (length xs)"

definition time_variance :: "real list \<Rightarrow> real" where
  "time_variance ts = mean (map (\<lambda>t. (t - mean ts)\<^sup>2) ts)"

definition elapsed_minutes :: "real list \<Rightarrow> real list" where
  "elapsed_minutes ts = map (\<lambda>t. (t - Min (set ts)) / 60) ts"

definition ols_slope :: "real list \<Rightarrow> real list \<Rightarrow> real" where
  "ols_slope xs ys =
     sum_list (map (\<lambda>(x, y). (x - mean xs) * (y - mean ys)) (zip xs ys)) /
     sum_list (map (\<lambda>x. (x - mean xs)\<^sup>2) xs)"

subsection \<open>An invariant of the loop\<close>

text \<open>
  What holds of the loop's variables before every tick of a run that starts in \<open>init\<close>:
  in \<open>STATE_LINEAR\<close> the plateau counter is still 0 and the PID variables are not yet
  bound; in \<open>STATE_NONLINEAR\<close> the counter is below \<open>PLATEAU_TICKS\<close>.
\<close>

definition loop_inv :: "ctx \<Rightarrow> bool" where
  "loop_inv c \<longleftrightarrow>
     (if state c = STATE_LINEAR then plateau_counter c = 0 \<and> pid c = None
      else if state c = STATE_NONLINEAR then plateau_counter c < PLATEAU_TICKS
      else True)"

subsection \<open>Sample inputs\<close>

text \<open>
  Ticks used as concrete inputs below. \<open>idle_input\<close>: a period in which no poll gave a
  reading. \<open>rising_input\<close> and \<open>falling_input\<close>: six readings, 5 s apart, rising
  (falling) by 1 AU each, read at second 30. \<open>in_gate_input\<close> and \<open>out_gate_input\<close>:
  six readings over ten minutes with slope 0.003 AU/min and range 0.04 AU (0.06 AU).
  \<open>single_input\<close>: one reading.
\<close>

definition idle_input :: tick_input where
  "idle_input = \<lparr>readings = [], now_slope = 30, now_range = 30, now_s10 = 30\<rparr>"

definition rising_input :: tick_input where
  "rising_input =
     \<lparr>readings = [(0, 0), (5, 1), (10, 2), (15, 3), (20, 4), (25, 5)],
      now_slope = 30, now_range = 30, now_s10 = 30\<rparr>"

definition falling_input :: tick_input where
  "falling_input =
     \<lparr>readings = [(0, 5), (5, 4), (10, 3), (15, 2), (20, 1), (25, 0)],
      now_slope = 30, now_range = 30, now_s10 = 30\<rparr>"

definition in_gate_input :: tick_input where
  "in_gate_input =
     \<lparr>readings = [(0, 50 / 100), (120, 51 / 100), (240, 50 / 100), (360, 52 / 100),
                  (480, 54 / 100), (600, 52 / 100)],
      now_slope = 600, now_range = 600, now_s10 = 600\<rparr>"

definition out_gate_input :: tick_input where
  "out_gate_input =
     \<lparr>readings = [(0, 50 / 100), (120, 53 / 100), (240, 50 / 100), (360, 52 / 100),
                  (480, 56 / 100), (600, 52 / 100)],
      now_slope = 600, now_range = 600, now_s10 = 600\<rparr>"

definition single_input :: tick_input where
  "single_input = \<lparr>readings = [(0, 1 / 2)], now_slope = 1, now_range = 1, now_s10 = 1\<rparr>"

text \<open>
  Two contexts of the feedback phase, before any of its ticks: \<open>entered\<close> at the start
  temperature, \<open>at_ceiling\<close> with the target already at \<open>MAX_TEMP\<close>.
\<close>

definition entered :: ctx where
  "entered = init\<lparr>state := STATE_NONLINEAR\<rparr>"

definition at_ceiling :: ctx where
  "at_ceiling = init\<lparr>state := STATE_NONLINEAR, temp := MAX_TEMP\<rparr>"

text \<open>
  A run through all phases: \<open>rising_input\<close>, then three periods of falling absorbance
  (\<open>falling_at T\<close>: six readings from second \<open>T\<close> on, read at \<open>T + 30\<close>), then one
  reading much later (\<open>settled_input\<close>), then a period without readings.
\<close>

definition falling_at :: "real \<Rightarrow> tick_input" where
  "falling_at T =
     \<lparr>readings = [(T, 5), (T + 5, 4), (T + 10, 3), (T + 15, 2), (T + 20, 1), (T + 25, 0)],
      now_slope = T + 30, now_range = T + 30, now_s10 = T + 30\<rparr>"

definition settled_input :: tick_input where
  "settled_input =
     \<lparr>readings = [(10000, 0)], now_slope = 10000, now_range = 10000, now_s10 = 10000\<rparr>"

definition full_run :: "tick_input list" where
  "full_run =
     [rising_input, falling_at 30, falling_at 60, falling_at 90, settled_input, idle_input]"

section \<open>Properties\<close>

subsection \<open>One tick, phase by phase\<close>

lemma clamp_integral:
  "max (min x (1 / 100)) (- (1 / 100)) = clamp_to (- (1 / 100)) (1 / 100) x"
  by (simp add: clamp_to_def max_def min_def)

lemma clamp_ramp: "max (- 10) (min MAX_RAMP x) = clamp_to (- 10) MAX_RAMP x"
  by (simp add: clamp_to_def max_def min_def MAX_RAMP_def)

lemma clamp_temp: "max START_TEMP (min MAX_TEMP x) = clamp_to START_TEMP MAX_TEMP x"
  by (simp add: clamp_to_def max_def min_def START_TEMP_def MAX_TEMP_def)

lemma clamp_to_bounds: "lo \<le> hi \<Longrightarrow> lo \<le> clamp_to lo hi x \<and> clamp_to lo hi x \<le> hi"
  by (simp add: clamp_to_def)

lemma period_minutes: "CHECK_PERIOD_S / 60 = dt_minutes"
  by (simp add: CHECK_PERIOD_S_def dt_minutes_def)

lemma pid_in_pair:
  "(case pid c of None \<Rightarrow> (0, 0) | Some p \<Rightarrow> p) = (integral_in c, prev_error_in c)"
  by (simp add: integral_in_def prev_error_in_def split: option.splits prod.splits)

lemma tick_linear:
  assumes "state c = STATE_LINEAR"
  shows "tick c inp =
    (if S_REF \<le> s_meas c inp then
       c\<lparr>history := collect (history c) (readings inp),
          notes_out := arrow @ '' proportional control'',
          state := STATE_NONLINEAR, ramp := 0, temp := temp c + FAST_RAMP * dt_minutes\<rparr>
     else
       c\<lparr>history := collect (history c) (readings inp), notes_out := [],
          ramp := FAST_RAMP, temp := temp c + FAST_RAMP * dt_minutes\<rparr>)"
  using assms by (simp add: tick_def linear_branch_def Let_def period_minutes)

lemma tick_nonlinear:
  assumes "state c = STATE_NONLINEAR"
  shows "tick c inp =
    (let pc = (if (spec_temp_target c inp \<ge> MAX_TEMP \<and> spec_ramp c inp > 0) \<or>
                  (spec_ramp c inp \<ge> MAX_RAMP \<and> spec_error c inp > 0)
               then plateau_counter c + 1 else 0);
         c1 = c\<lparr>history := collect (history c) (readings inp), notes_out := [],
                pid := Some (spec_integral c inp, spec_error c inp),
                ramp := spec_ramp c inp, temp := spec_temp_target c inp,
                plateau_counter := pc\<rparr>
     in if PLATEAU_TICKS \<le> pc then
          c1\<lparr>state := STATE_HOLD, ramp := 0, temp := MAX_TEMP,
             notes_out := ''Reached limit '' @ arrow @ '' HOLD''\<rparr>
        else c1)"
proof -
  let ?c0 = "c\<lparr>history := collect (history c) (readings inp), notes_out := []\<rparr>"
  have t: "tick c inp = nonlinear_branch ?c0 (s_meas c inp)"
    using assms by (simp add: tick_def)
  have p: "pid ?c0 = pid c" "temp ?c0 = temp c" "plateau_counter ?c0 = plateau_counter c"
    by simp_all
  have i: "integral_in ?c0 = integral_in c" "prev_error_in ?c0 = prev_error_in c"
    by (simp_all add: integral_in_def prev_error_in_def)
  show ?thesis
    unfolding t nonlinear_branch_def pid_in_pair Let_def prod.case
      clamp_integral clamp_ramp clamp_temp period_minutes i p
      spec_temp_target_def spec_ramp_def spec_derivative_def spec_integral_def spec_error_def
    by simp
qed

lemma tick_hold:
  assumes "state c = STATE_HOLD"
  shows "tick c inp =
    (let h = collect (history c) (readings inp);
         c1 = c\<lparr>history := h, notes_out := [], ramp := 0, temp := MAX_TEMP\<rparr>
     in case range_over_window h (now_range inp) STABILITY_WINDOW_MIN of
          None \<Rightarrow> c1
        | Some r \<Rightarrow>
            if r < STABILITY_MAX_RANGE_AU \<and>
               \<bar>or_zero (slope_over_window h (now_s10 inp) (STABILITY_WINDOW_MIN * 60))\<bar>
                 < STABILITY_MAX_SLOPE
            then c1\<lparr>state := STATE_COOL, ramp := COOL_RAMP, temp := START_TEMP,
                    notes_out := ''Stable '' @ arrow @ '' COOL''\<rparr>
            else c1)"
  using assms by (simp add: tick_def hold_branch_def Let_def split: option.splits)

lemma tick_cool:
  assumes "state c = STATE_COOL"
  shows "state (tick c inp) = STATE_DONE \<and> temp (tick c inp) = START_TEMP \<and>
         ramp (tick c inp) = 0"
  using assms by (simp add: tick_def cool_branch_def Let_def)

lemma tick_done: "state c = STATE_DONE \<Longrightarrow> state (tick c inp) = STATE_DONE"
  by (simp add: tick_def)

lemma tick_phase: "state (tick c inp) = state c \<or> advances (state c) (state (tick c inp))"
proof (cases "state c")
  case STATE_LINEAR
  then show ?thesis by (simp add: tick_linear)
next
  case STATE_NONLINEAR
  then show ?thesis
    unfolding tick_nonlinear [OF STATE_NONLINEAR] Let_def by (simp split: if_splits)
next
  case STATE_HOLD
  then show ?thesis by (simp add: tick_hold Let_def split: option.splits)
next
  case STATE_COOL
  then show ?thesis by (simp add: tick_cool)
next
  case STATE_DONE
  then show ?thesis by (simp add: tick_done)
qed

lemma tick_linear_back: "state (tick c inp) = STATE_LINEAR \<Longrightarrow> state c = STATE_LINEAR"
  using tick_phase [of c inp] by (cases "state c") auto

subsection \<open>The loop\<close>

lemma control_loop_snoc:
  "state c \<noteq> STATE_DONE \<Longrightarrow>
   control_loop c (inps @ [i]) =
     (if state (control_loop c inps) = STATE_DONE then control_loop c inps
      else tick (control_loop c inps) i)"
  by (induction inps arbitrary: c) (auto simp: Let_def)

lemma control_loop_done_append:
  "state c \<noteq> STATE_DONE \<Longrightarrow> state (control_loop c inps) = STATE_DONE \<Longrightarrow>
   control_loop c (inps @ later) = control_loop c inps"
  by (induction inps arbitrary: c) (auto simp: Let_def)

lemma control_loop_last: "control_loop c inps = last (c # loop_trace c inps)"
  by (induction inps arbitrary: c) (auto simp: Let_def)

lemma loop_trace_chain:
  "state c \<noteq> STATE_DONE \<Longrightarrow> forward_chain (map state (c # loop_trace c inps))"
proof (induction inps arbitrary: c)
  case Nil
  then show ?case by simp
next
  case (Cons i inps)
  show ?case
  proof (cases "state (tick c i) = STATE_DONE")
    case True
    with Cons.prems tick_phase [of c i] show ?thesis by (simp add: Let_def)
  next
    case False
    from Cons.IH [OF False] Cons.prems tick_phase [of c i] False
    show ?thesis by (simp add: Let_def)
  qed
qed

lemma linear_until:
  "state c = STATE_LINEAR \<Longrightarrow>
   (state (control_loop c inps) = STATE_LINEAR \<longleftrightarrow>
      (\<forall>k < length inps. s_meas (control_loop c (take k inps)) (inps ! k) < S_REF))"
proof (induction inps rule: rev_induct)
  case Nil
  then show ?case by simp
next
  case (snoc i inps)
  have nd: "state c \<noteq> STATE_DONE" using snoc.prems by simp
  let ?c = "control_loop c inps"
  have step: "control_loop c (inps @ [i]) =
     (if state ?c = STATE_DONE then ?c else tick ?c i)"
    using control_loop_snoc [OF nd] .
  have lin: "state ?c = STATE_LINEAR \<Longrightarrow>
     (state (tick ?c i) = STATE_LINEAR \<longleftrightarrow> s_meas ?c i < S_REF)"
    by (auto simp: tick_linear)
  have split: "(\<forall>k < length (inps @ [i]).
        s_meas (control_loop c (take k (inps @ [i]))) ((inps @ [i]) ! k) < S_REF)
     \<longleftrightarrow> (\<forall>k < length inps. s_meas (control_loop c (take k inps)) (inps ! k) < S_REF)
          \<and> s_meas ?c i < S_REF"
    by (auto simp: less_Suc_eq nth_append)
  show ?case
  proof (cases "state ?c = STATE_LINEAR")
    case True
    with snoc.IH [OF snoc.prems] step lin split show ?thesis by simp
  next
    case False
    have "state (control_loop c (inps @ [i])) \<noteq> STATE_LINEAR"
      using step False tick_linear_back [of ?c i] by (auto split: if_splits)
    with snoc.IH [OF snoc.prems] False split show ?thesis by simp
  qed
qed

subsection \<open>Evaluating the statistics on the sample inputs\<close>

lemmas stat_defs = collect_def slope_over_window_def range_over_window_def or_zero_def Let_def
  HISTORY_MAXLEN_def power2_eq_square

lemma s_meas_rising: "s_meas init rising_input = 12"
  by (simp add: s_meas_def init_def rising_input_def stat_defs SLOPE_WIN_SEC_def)

lemma s_meas_idle: "history c = [] \<Longrightarrow> s_meas c idle_input = 0"
  by (simp add: s_meas_def idle_input_def stat_defs SLOPE_WIN_SEC_def)

lemma in_gate_stats:
  "range_over_window (collect [] (readings in_gate_input)) (now_range in_gate_input)
     STABILITY_WINDOW_MIN = Some (4 / 100)"
  "slope_over_window (collect [] (readings in_gate_input)) (now_s10 in_gate_input) 600
     = Some (3 / 1000)"
  by (simp_all add: in_gate_input_def stat_defs STABILITY_WINDOW_MIN_def)

lemma out_gate_stats:
  "range_over_window (collect [] (readings out_gate_input)) (now_range out_gate_input)
     STABILITY_WINDOW_MIN = Some (6 / 100)"
  "slope_over_window (collect [] (readings out_gate_input)) (now_s10 out_gate_input) 600
     = Some (3 / 1000)"
  by (simp_all add: out_gate_input_def stat_defs STABILITY_WINDOW_MIN_def)

lemma single_stats:
  "range_over_window (collect [] (readings single_input)) (now_range single_input)
     STABILITY_WINDOW_MIN = Some 0"
  "slope_over_window (collect [] (readings single_input)) (now_s10 single_input) 600 = None"
  by (simp_all add: single_input_def stat_defs STABILITY_WINDOW_MIN_def)

subsection \<open>The feedback phase\<close>

lemma spec_ramp_le: "spec_ramp c inp \<le> MAX_RAMP"
  using clamp_to_bounds [of "- 10" MAX_RAMP] by (simp add: spec_ramp_def MAX_RAMP_def)

lemma spec_temp_target_bounds:
  "START_TEMP \<le> spec_temp_target c inp \<and> spec_temp_target c inp \<le> MAX_TEMP"
  using clamp_to_bounds [of START_TEMP MAX_TEMP]
  by (simp add: spec_temp_target_def START_TEMP_def MAX_TEMP_def)

lemma plateau_cond:
  "(MAX_TEMP \<le> spec_temp_target c inp \<and> 0 < spec_ramp c inp \<or>
    MAX_RAMP \<le> spec_ramp c inp \<and> 0 < spec_error c inp) = plateau_qualifies c inp"
  using spec_ramp_le [of c inp] spec_temp_target_bounds [of c inp]
  unfolding plateau_qualifies_def by auto

lemma nonlinear_counter:
  "state c = STATE_NONLINEAR \<Longrightarrow>
   plateau_counter (tick c inp) = (if plateau_qualifies c inp then plateau_counter c + 1 else 0)"
  unfolding tick_nonlinear Let_def plateau_cond by simp

lemma nonlinear_state:
  "state c = STATE_NONLINEAR \<Longrightarrow>
   state (tick c inp) =
     (if plateau_qualifies c inp \<and> 2 \<le> plateau_counter c then STATE_HOLD
      else STATE_NONLINEAR)"
  unfolding tick_nonlinear Let_def plateau_cond by (simp add: PLATEAU_TICKS_def)

lemma nonlinear_pid:
  "state c = STATE_NONLINEAR \<Longrightarrow>
   pid (tick c inp) = Some (spec_integral c inp, spec_error c inp)"
  unfolding tick_nonlinear Let_def plateau_cond by simp

lemma nonlinear_ramp:
  "state c = STATE_NONLINEAR \<Longrightarrow>
   ramp (tick c inp) =
     (if plateau_qualifies c inp \<and> 2 \<le> plateau_counter c then 0 else spec_ramp c inp)"
  unfolding tick_nonlinear Let_def plateau_cond by (simp add: PLATEAU_TICKS_def)

lemma nonlinear_temp:
  "state c = STATE_NONLINEAR \<Longrightarrow>
   temp (tick c inp) =
     (if plateau_qualifies c inp \<and> 2 \<le> plateau_counter c then MAX_TEMP
      else spec_temp_target c inp)"
  unfolding tick_nonlinear Let_def plateau_cond by (simp add: PLATEAU_TICKS_def)

subsection \<open>The invariant\<close>

lemma loop_inv_init: "loop_inv init"
  by (simp add: loop_inv_def init_def)

lemma loop_inv_tick: "loop_inv c \<Longrightarrow> loop_inv (tick c inp)"
proof (cases "state c")
  case STATE_LINEAR
  then show "loop_inv c \<Longrightarrow> loop_inv (tick c inp)"
    by (simp add: loop_inv_def tick_linear PLATEAU_TICKS_def)
next
  case STATE_NONLINEAR
  then show "loop_inv c \<Longrightarrow> loop_inv (tick c inp)"
    by (simp add: loop_inv_def nonlinear_state nonlinear_counter PLATEAU_TICKS_def)
next
  case STATE_HOLD
  then show "loop_inv c \<Longrightarrow> loop_inv (tick c inp)"
    using tick_phase [of c inp] by (auto simp: loop_inv_def)
next
  case STATE_COOL
  then show "loop_inv c \<Longrightarrow> loop_inv (tick c inp)"
    by (simp add: loop_inv_def tick_cool)
next
  case STATE_DONE
  then show "loop_inv c \<Longrightarrow> loop_inv (tick c inp)"
    by (simp add: loop_inv_def tick_done)
qed

lemma loop_inv_control_loop: "loop_inv c \<Longrightarrow> loop_inv (control_loop c inps)"
  by (induction inps arbitrary: c) (auto simp: Let_def loop_inv_tick)

subsection \<open>A run without readings\<close>

lemma tick_idle:
  assumes "state c = STATE_LINEAR" and "history c = []"
  shows "state (tick c idle_input) = STATE_LINEAR \<and> history (tick c idle_input) = [] \<and>
         temp (tick c idle_input) = temp c + 1"
proof -
  have "s_meas c idle_input < S_REF"
    using assms(2) by (simp add: s_meas_idle config_defs)
  then show ?thesis
    using assms
    by (simp add: tick_linear collect_def idle_input_def FAST_RAMP_def dt_minutes_def)
qed

lemma idle_run:
  "state c = STATE_LINEAR \<Longrightarrow> history c = [] \<Longrightarrow>
   state (control_loop c (replicate n idle_input)) = STATE_LINEAR \<and>
   history (control_loop c (replicate n idle_input)) = [] \<and>
   temp (control_loop c (replicate n idle_input)) = temp c + real n"
proof (induction n arbitrary: c)
  case 0
  then show ?case by simp
next
  case (Suc n)
  from tick_idle [OF Suc.prems]
  have t: "state (tick c idle_input) = STATE_LINEAR" "history (tick c idle_input) = []"
    "temp (tick c idle_input) = temp c + 1"
    by simp_all
  from Suc.IH [OF t(1) t(2)] t show ?case by (simp add: Let_def)
qed

subsection \<open>History and PID variables across a tick\<close>

lemma tick_history: "history (tick c inp) = collect (history c) (readings inp)"
proof (cases "state c")
  case STATE_LINEAR
  then show ?thesis by (simp add: tick_linear)
next
  case STATE_NONLINEAR
  then show ?thesis unfolding tick_nonlinear [OF STATE_NONLINEAR] Let_def by simp
next
  case STATE_HOLD
  then show ?thesis by (simp add: tick_hold Let_def split: option.splits)
next
  case STATE_COOL
  then show ?thesis by (simp add: tick_def cool_branch_def Let_def)
next
  case STATE_DONE
  then show ?thesis by (simp add: tick_def)
qed

lemma tick_pid_other: "state c \<noteq> STATE_NONLINEAR \<Longrightarrow> pid (tick c inp) = pid c"
proof (cases "state c")
  case STATE_LINEAR
  then show ?thesis by (simp add: tick_linear)
next
  case STATE_NONLINEAR
  assume "state c \<noteq> STATE_NONLINEAR"
  with STATE_NONLINEAR show ?thesis by simp
next
  case STATE_HOLD
  then show ?thesis by (simp add: tick_hold Let_def split: option.splits)
next
  case STATE_COOL
  then show ?thesis by (simp add: tick_def cool_branch_def Let_def)
next
  case STATE_DONE
  then show ?thesis by (simp add: tick_def)
qed

lemma tick_unbound_pid:
  assumes "state c = STATE_NONLINEAR" and "pid c = None"
  shows "tick c inp = tick (c\<lparr>pid := Some (0, 0)\<rparr>) inp"
proof -
  let ?d = "c\<lparr>pid := Some (0, 0)\<rparr>"
  have d: "state ?d = STATE_NONLINEAR" using assms(1) by simp
  have s: "s_meas ?d inp = s_meas c inp" by (simp add: s_meas_def)
  have e: "spec_error ?d inp = spec_error c inp" by (simp add: spec_error_def s)
  have i: "spec_integral ?d inp = spec_integral c inp"
    using assms(2) by (simp add: spec_integral_def integral_in_def e)
  have r: "spec_ramp ?d inp = spec_ramp c inp"
    using assms(2) by (simp add: spec_ramp_def spec_derivative_def prev_error_in_def e i)
  have t: "spec_temp_target ?d inp = spec_temp_target c inp"
    by (simp add: spec_temp_target_def r)
  show ?thesis
    unfolding tick_nonlinear [OF assms(1)] tick_nonlinear [OF d] e i r t Let_def by simp
qed

subsection \<open>Evaluating the feedback phase on the sample inputs\<close>

lemmas spec_defs = spec_error_def spec_integral_def spec_derivative_def spec_ramp_def
  spec_temp_target_def integral_in_def prev_error_in_def clamp_to_def dt_minutes_def

lemma tick_idle_history: "history c = [] \<Longrightarrow> history (tick c idle_input) = []"
  by (simp add: tick_history collect_def idle_input_def)

lemma s_meas_falling: "history c = [] \<Longrightarrow> s_meas c falling_input = - 12"
  by (simp add: s_meas_def falling_input_def stat_defs SLOPE_WIN_SEC_def)

lemma entered_falling:
  "spec_error entered falling_input = 3601 / 300"
  "spec_integral entered falling_input = 1 / 100"
  "spec_ramp entered falling_input = 10"
  "spec_temp_target entered falling_input = 50"
  by (simp_all add: spec_defs s_meas_falling entered_def init_def config_defs)

lemma idle_at_ceiling:
  assumes "history c = []" and "temp c = MAX_TEMP"
    and "pid c = None \<and> k = 0 \<or> pid c = Some (k / 600, 1 / 300)" and "0 \<le> k" and "k \<le> 5"
  shows "plateau_qualifies c idle_input \<and> spec_temp_target c idle_input = MAX_TEMP \<and>
         spec_error c idle_input = 1 / 300 \<and> spec_integral c idle_input = (k + 1) / 600"
  using assms
  by (auto simp add: plateau_qualifies_def spec_defs s_meas_idle config_defs field_simps)

subsection \<open>The regression of \<open>slope_over_window\<close>\<close>

text \<open>
  The deviations of the elapsed minutes from their mean do not depend on the time the
  minutes are counted from, so numerator and denominator can be written on the times
  themselves.
\<close>

lemma sum_list_shift:
  "sum_list (map (\<lambda>t. (t - c) / 60) ts) = (sum_list ts - real (length ts) * c) / (60 :: real)"
  by (induction ts) (simp_all add: field_simps)

lemma mean_shift:
  assumes "ts \<noteq> []"
  shows "mean (map (\<lambda>t. (t - c) / 60) ts) = (mean ts - c) / 60"
proof -
  have "real (length ts) \<noteq> 0" using assms by simp
  then show ?thesis
    by (simp add: mean_def sum_list_shift field_simps)
qed

lemma deviation_shift:
  assumes "ts \<noteq> []"
  shows "(t - c) / 60 - mean (map (\<lambda>t. (t - c) / 60) ts) = (t - mean ts) / 60"
  by (simp add: mean_shift [OF assms] field_simps)

lemma shift_den:
  assumes "ts \<noteq> []"
  shows "sum_list (map (\<lambda>x. (x - mean (map (\<lambda>t. (t - c) / 60) ts))\<^sup>2)
           (map (\<lambda>t. (t - c) / 60) ts))
         = sum_list (map (\<lambda>t. ((t - mean ts) / 60)\<^sup>2) ts)"
  by (simp add: o_def deviation_shift [OF assms])

lemma shift_num:
  assumes "ts \<noteq> []"
  shows "sum_list (map (\<lambda>(x, y). (x - mean (map (\<lambda>t. (t - c) / 60) ts)) * (y - m))
           (zip (map (\<lambda>t. (t - c) / 60) ts) ys))
         = sum_list (map (\<lambda>(t, y). ((t - mean ts) / 60) * (y - m)) (zip ts ys))"
  by (simp add: zip_map1 o_def case_prod_unfold deviation_shift [OF assms])

lemma den_variance:
  "sum_list (map (\<lambda>t. ((t - m) / 60)\<^sup>2) ts) = sum_list (map (\<lambda>t. (t - m)\<^sup>2) ts) / (3600 :: real)"
  by (induction ts) (simp_all add: power_divide add_divide_distrib)

lemma den_zero_iff:
  assumes "ts \<noteq> []"
  shows "sum_list (map (\<lambda>t. ((t - mean ts) / 60)\<^sup>2) ts) = 0 \<longleftrightarrow> time_variance ts = 0"
proof -
  have "real (length ts) \<noteq> 0" using assms by simp
  then show ?thesis
    by (simp add: time_variance_def den_variance mean_def [of "map f ts" for f])
qed

lemma ols_slope_elapsed:
  assumes "ts \<noteq> []"
  shows "ols_slope (elapsed_minutes ts) ys =
     sum_list (map (\<lambda>(t, y). ((t - mean ts) / 60) * (y - mean ys)) (zip ts ys)) /
     sum_list (map (\<lambda>t. ((t - mean ts) / 60)\<^sup>2) ts)"
  unfolding ols_slope_def elapsed_minutes_def shift_den [OF assms] shift_num [OF assms] ..

lemma slope_over_window_canonical:
  "slope_over_window h now w =
     (let pts = in_window h now w; ts = map fst pts; ys = map snd pts in
      if length pts < 6 then None
      else if sum_list (map (\<lambda>t. ((t - mean ts) / 60)\<^sup>2) ts) \<noteq> 0
           then Some (sum_list (map (\<lambda>(t, y). ((t - mean ts) / 60) * (y - mean ys)) (zip ts ys)) /
                      sum_list (map (\<lambda>t. ((t - mean ts) / 60)\<^sup>2) ts))
           else None)"
proof -
  let ?pts = "filter (\<lambda>(t, a). now - w \<le> t) h"
  let ?ts = "map fst ?pts"
  let ?ys = "map snd ?pts"
  let ?t0 = "fst (hd ?pts)"
  have xs: "map (\<lambda>(t, _). (t - ?t0) / 60) ?pts = map (\<lambda>t. (t - ?t0) / 60) ?ts"
    by (simp add: o_def case_prod_beta)
  have ys: "map (\<lambda>(_, a). a) ?pts = ?ys"
    by (simp add: case_prod_beta)
  have len: "real (length (map (\<lambda>t. (t - ?t0) / 60) ?ts)) = real (length ?ts)"
    "real (length ?ys) = real (length ?ts)" by simp_all
  show ?thesis
  proof (cases "length ?pts < 6")
    case True
    then show ?thesis by (simp add: slope_over_window_def in_window_def Let_def)
  next
    case False
    then have ne: "?ts \<noteq> []" by auto
    have mx: "sum_list (map (\<lambda>t. (t - ?t0) / 60) ?ts) / real (length ?pts)
        = mean (map (\<lambda>t. (t - ?t0) / 60) ?ts)"
      by (simp add: mean_def)
    have my: "sum_list ?ys / real (length ?pts) = mean ?ys"
      by (simp add: mean_def)
    show ?thesis
      unfolding slope_over_window_def in_window_def Let_def xs ys 
      using False
      by (simp only: if_False length_map mx my shift_den [OF ne] shift_num [OF ne])
  qed
qed


lemma variance_zero_iff:
  assumes "ts \<noteq> []"
  shows "time_variance ts = 0 \<longleftrightarrow> (\<forall>t \<in> set ts. t = mean ts)"
proof -
  have n: "real (length ts) \<noteq> 0" using assms by simp
  have "time_variance ts = 0 \<longleftrightarrow> sum_list (map (\<lambda>t. (t - mean ts)\<^sup>2) ts) = 0"
    using n by (simp add: time_variance_def mean_def [of "map f ts" for f])
  also have "\<dots> \<longleftrightarrow> (\<forall>x \<in> set (map (\<lambda>t. (t - mean ts)\<^sup>2) ts). x = 0)"
    by (rule sum_list_nonneg_eq_0_iff) auto
  also have "\<dots> \<longleftrightarrow> (\<forall>t \<in> set ts. t = mean ts)"
    by auto
  finally show ?thesis .
qed

lemma all_equal_mean:
  assumes "ts \<noteq> []"
  shows "(\<forall>t \<in> set ts. t = mean ts) \<longleftrightarrow> (\<forall>t \<in> set ts. t = hd ts)"
proof
  assume a: "\<forall>t \<in> set ts. t = mean ts"
  then have "hd ts = mean ts" using assms by simp
  with a show "\<forall>t \<in> set ts. t = hd ts" by simp
next
  assume a: "\<forall>t \<in> set ts. t = hd ts"
  then have "map (\<lambda>_. hd ts) ts = ts" by (simp add: map_idI)
  then have "sum_list ts = sum_list (map (\<lambda>_. hd ts) ts)" by simp
  also have "\<dots> = real (length ts) * hd ts" by (simp add: sum_list_triv)
  finally have "mean ts = hd ts" using assms by (simp add: mean_def)
  with a show "\<forall>t \<in> set ts. t = mean ts" by simp
qed

subsection \<open>A run through all phases\<close>

lemma falling_qualifies:
  assumes "s_meas c inp = - 12" and "prev_error_in c \<le> 3601 / 300"
  shows "plateau_qualifies c inp \<and> spec_error c inp = 3601 / 300"
proof -
  have e: "spec_error c inp = 3601 / 300" using assms(1) by (simp add: spec_error_def config_defs)
  have i: "- (1 / 100) \<le> spec_integral c inp"
    using clamp_to_bounds [of "- (1 / 100)" "1 / 100"] by (simp add: spec_integral_def)
  have d: "0 \<le> spec_derivative c inp"
    using assms(2) by (simp add: spec_derivative_def e dt_minutes_def)
  have "MAX_RAMP \<le> 80 * spec_error c inp + 10 * spec_integral c inp + 5 * spec_derivative c inp"
    using i d by (simp add: e MAX_RAMP_def)
  then have "spec_ramp c inp = MAX_RAMP"
    by (simp add: spec_ramp_def clamp_to_def MAX_RAMP_def)
  then show ?thesis using e by (simp add: plateau_qualifies_def)
qed

lemma collect_short:
  "length h + length new \<le> HISTORY_MAXLEN \<Longrightarrow> collect h new = h @ new"
  by (simp add: collect_def)

lemma slope_window_cong:
  "filter (\<lambda>(t, a). now - w \<le> t) h = filter (\<lambda>(t, a). now - w \<le> t) h' \<Longrightarrow>
   slope_over_window h now w = slope_over_window h' now w"
  by (simp add: slope_over_window_def)

lemma range_window_cong:
  "filter (\<lambda>(t, a). now - w * 60 \<le> t) h = filter (\<lambda>(t, a). now - w * 60 \<le> t) h' \<Longrightarrow>
   range_over_window h now w = range_over_window h' now w"
  by (simp add: range_over_window_def)

lemma slope_falling_at: "slope_over_window (readings (falling_at T)) (T + 30) 30 = Some (- 12)"
  by (simp add: falling_at_def slope_over_window_def Let_def power2_eq_square)

lemma s_meas_falling_at:
  assumes "\<forall>x \<in> set (history c). fst x < T" and "length (history c) + 6 \<le> HISTORY_MAXLEN"
  shows "s_meas c (falling_at T) = - 12"
proof -
  let ?R = "readings (falling_at T)"
  have f: "filter (\<lambda>(t, a). T \<le> t) (history c) = []"
    using assms(1) by (auto simp: filter_empty_conv)
  have c: "collect (history c) ?R = history c @ ?R"
    using assms(2) by (simp add: collect_short falling_at_def)
  have "slope_over_window (history c @ ?R) (T + 30) 30 = slope_over_window ?R (T + 30) 30"
    by (rule slope_window_cong) (simp add: f)
  then have "slope_over_window (collect (history c) ?R) (now_slope (falling_at T)) SLOPE_WIN_SEC
      = Some (- 12)"
    by (simp add: c slope_falling_at SLOPE_WIN_SEC_def falling_at_def [of T, THEN arg_cong, of now_slope])
  then show ?thesis by (simp add: s_meas_def or_zero_def)
qed


lemma falling_step:
  assumes "state c = STATE_NONLINEAR" and "\<forall>x \<in> set (history c). fst x < T"
    and "length (history c) + 6 \<le> HISTORY_MAXLEN" and "prev_error_in c \<le> 3601 / 300"
  shows "state (tick c (falling_at T)) =
           (if 2 \<le> plateau_counter c then STATE_HOLD else STATE_NONLINEAR) \<and>
         plateau_counter (tick c (falling_at T)) = plateau_counter c + 1 \<and>
         prev_error_in (tick c (falling_at T)) \<le> 3601 / 300 \<and>
         (\<forall>x \<in> set (history (tick c (falling_at T))). fst x < T + 30) \<and>
         length (history (tick c (falling_at T))) = length (history c) + 6"
proof -
  from falling_qualifies [OF s_meas_falling_at [OF assms(2) assms(3)] assms(4)]
  have q: "plateau_qualifies c (falling_at T)" and e: "spec_error c (falling_at T) = 3601 / 300"
    by simp_all
  have h: "history (tick c (falling_at T)) = history c @ readings (falling_at T)"
    using assms(3) by (simp add: tick_history collect_short falling_at_def)
  have old: "\<forall>x \<in> set (history (tick c (falling_at T))). fst x < T + 30"
    unfolding h using assms(2) by (auto simp: falling_at_def)
  have len: "length (history (tick c (falling_at T))) = length (history c) + 6"
    unfolding h by (simp add: falling_at_def)
  have p: "prev_error_in (tick c (falling_at T)) \<le> 3601 / 300"
    using assms(1) by (simp add: prev_error_in_def nonlinear_pid e)
  from assms(1) q old len p show ?thesis
    by (simp add: nonlinear_state nonlinear_counter)
qed

lemma settled_step:
  assumes "state c = STATE_HOLD" and "\<forall>x \<in> set (history c). fst x < 9400"
    and "length (history c) + 1 \<le> HISTORY_MAXLEN"
  shows "state (tick c settled_input) = STATE_COOL \<and>
         temp (tick c settled_input) = START_TEMP \<and>
         ramp (tick c settled_input) = COOL_RAMP"
proof -
  let ?R = "readings settled_input"
  have f: "filter (\<lambda>(t, a). 9400 \<le> t) (history c) = []"
    using assms(2) by (auto simp: filter_empty_conv)
  have c: "collect (history c) ?R = history c @ ?R"
    using assms(3) by (simp add: collect_short settled_input_def)
  have n: "now_range settled_input = 10000" "now_s10 settled_input = 10000"
    "STABILITY_WINDOW_MIN = 10" "STABILITY_WINDOW_MIN * 60 = 600"
    by (simp_all add: settled_input_def STABILITY_WINDOW_MIN_def)
  have r0: "range_over_window ?R 10000 10 = Some 0"
    by (simp add: settled_input_def range_over_window_def)
  have "range_over_window (history c @ ?R) 10000 10 = range_over_window ?R 10000 10"
    by (rule range_window_cong) (simp add: f)
  then have r: "range_over_window (collect (history c) ?R) (now_range settled_input)
      STABILITY_WINDOW_MIN = Some 0"
    unfolding c n(1,3) r0 .
  have s0: "slope_over_window ?R 10000 600 = None"
    by (simp add: settled_input_def slope_over_window_def)
  have "slope_over_window (history c @ ?R) 10000 600 = slope_over_window ?R 10000 600"
    by (rule slope_window_cong) (simp add: f)
  then have s: "slope_over_window (collect (history c) ?R) (now_s10 settled_input)
      (STABILITY_WINDOW_MIN * 60) = None"
    unfolding c n(2,4) s0 .
  show ?thesis
    using assms(1)
    by (simp add: tick_hold Let_def r s or_zero_def STABILITY_MAX_RANGE_AU_def
          STABILITY_MAX_SLOPE_def)
qed

lemma falling_hold:
  assumes "state c = STATE_NONLINEAR" and "\<forall>x \<in> set (history c). fst x < T"
    and "length (history c) + 6 \<le> HISTORY_MAXLEN" and "prev_error_in c \<le> 3601 / 300"
    and "2 \<le> plateau_counter c"
  shows "temp (tick c (falling_at T)) = MAX_TEMP \<and> ramp (tick c (falling_at T)) = 0"
proof -
  from falling_qualifies [OF s_meas_falling_at [OF assms(2) assms(3)] assms(4)]
  have "plateau_qualifies c (falling_at T)" by simp
  with assms(1) assms(5) show ?thesis by (simp add: nonlinear_temp nonlinear_ramp)
qed

lemma run_steps:
  "state (tick init rising_input) = STATE_NONLINEAR \<and>
   state (tick (tick init rising_input) (falling_at 30)) = STATE_NONLINEAR \<and>
   state (tick (tick (tick init rising_input) (falling_at 30)) (falling_at 60))
     = STATE_NONLINEAR \<and>
   state (tick (tick (tick (tick init rising_input) (falling_at 30)) (falling_at 60))
     (falling_at 90)) = STATE_HOLD \<and>
   temp (tick (tick (tick (tick init rising_input) (falling_at 30)) (falling_at 60))
     (falling_at 90)) = MAX_TEMP \<and>
   ramp (tick (tick (tick (tick init rising_input) (falling_at 30)) (falling_at 60))
     (falling_at 90)) = 0 \<and>
   state (tick (tick (tick (tick (tick init rising_input) (falling_at 30)) (falling_at 60))
     (falling_at 90)) settled_input) = STATE_COOL \<and>
   temp (tick (tick (tick (tick (tick init rising_input) (falling_at 30)) (falling_at 60))
     (falling_at 90)) settled_input) = START_TEMP \<and>
   ramp (tick (tick (tick (tick (tick init rising_input) (falling_at 30)) (falling_at 60))
     (falling_at 90)) settled_input) = COOL_RAMP \<and>
   state (tick (tick (tick (tick (tick (tick init rising_input) (falling_at 30))
     (falling_at 60)) (falling_at 90)) settled_input) idle_input) = STATE_DONE \<and>
   temp (tick (tick (tick (tick (tick (tick init rising_input) (falling_at 30))
     (falling_at 60)) (falling_at 90)) settled_input) idle_input) = START_TEMP \<and>
   ramp (tick (tick (tick (tick (tick (tick init rising_input) (falling_at 30))
     (falling_at 60)) (falling_at 90)) settled_input) idle_input) = 0"
proof -
  let ?c1 = "tick init rising_input"
  let ?c2 = "tick ?c1 (falling_at 30)"
  let ?c3 = "tick ?c2 (falling_at 60)"
  let ?c4 = "tick ?c3 (falling_at 90)"
  let ?c5 = "tick ?c4 settled_input"
  let ?c6 = "tick ?c5 idle_input"
  have r: "S_REF \<le> s_meas init rising_input" by (simp add: s_meas_rising config_defs)
  have c1: "state ?c1 = STATE_NONLINEAR" "plateau_counter ?c1 = 0" "prev_error_in ?c1 = 0"
    "history ?c1 = readings rising_input"
    using r
    by (simp_all add: tick_linear tick_history collect_def HISTORY_MAXLEN_def init_def
          prev_error_in_def rising_input_def)
  have o1: "\<forall>x \<in> set (history ?c1). fst x < 30" "length (history ?c1) + 6 \<le> HISTORY_MAXLEN"
    unfolding c1(4) by (simp_all add: rising_input_def HISTORY_MAXLEN_def)
  have p1: "prev_error_in ?c1 \<le> 3601 / 300" by (simp add: c1(3))
  have len1: "length (history ?c1) = 6"
    unfolding c1(4) by (simp add: rising_input_def)
  from falling_step [OF c1(1) o1 p1] c1(2) len1
  have c2: "state ?c2 = STATE_NONLINEAR" "plateau_counter ?c2 = 1"
    "prev_error_in ?c2 \<le> 3601 / 300" "\<forall>x \<in> set (history ?c2). fst x < 60"
    "length (history ?c2) = 12"
    by simp_all
  have l2: "length (history ?c2) + 6 \<le> HISTORY_MAXLEN" by (simp add: c2(5) HISTORY_MAXLEN_def)
  from falling_step [OF c2(1) c2(4) l2 c2(3)] c2(2) c2(5)
  have c3: "state ?c3 = STATE_NONLINEAR" "plateau_counter ?c3 = 2"
    "prev_error_in ?c3 \<le> 3601 / 300" "\<forall>x \<in> set (history ?c3). fst x < 90"
    "length (history ?c3) = 18"
    by simp_all
  have l3: "length (history ?c3) + 6 \<le> HISTORY_MAXLEN" by (simp add: c3(5) HISTORY_MAXLEN_def)
  have k3: "2 \<le> plateau_counter ?c3" by (simp add: c3(2))
  from falling_step [OF c3(1) c3(4) l3 c3(3)] c3(2) c3(5)
  have c4: "state ?c4 = STATE_HOLD" "\<forall>x \<in> set (history ?c4). fst x < 120"
    "length (history ?c4) = 24"
    by simp_all
  from falling_hold [OF c3(1) c3(4) l3 c3(3) k3]
  have v4: "temp ?c4 = MAX_TEMP" "ramp ?c4 = 0" by simp_all
  have o4: "\<forall>x \<in> set (history ?c4). fst x < 9400" using c4(2) by fastforce
  have l4: "length (history ?c4) + 1 \<le> HISTORY_MAXLEN" by (simp add: c4(3) HISTORY_MAXLEN_def)
  from settled_step [OF c4(1) o4 l4]
  have c5: "state ?c5 = STATE_COOL" "temp ?c5 = START_TEMP" "ramp ?c5 = COOL_RAMP"
    by simp_all
  from tick_cool [OF c5(1), of idle_input]
  have c6: "state ?c6 = STATE_DONE" "temp ?c6 = START_TEMP" "ramp ?c6 = 0" by simp_all
  from c1(1) c2(1) c3(1) c4(1) v4 c5 c6 show ?thesis by blast
qed

lemma complete_run:
  "map state (loop_trace init full_run) =
     [STATE_NONLINEAR, STATE_NONLINEAR, STATE_NONLINEAR, STATE_HOLD, STATE_COOL, STATE_DONE] \<and>
   state (control_loop init full_run) = STATE_DONE \<and>
   temp (control_loop init full_run) = START_TEMP"
  using run_steps by (simp add: control_loop_last full_run_def Let_def)

subsection \<open>Entering and leaving the cool-down phase\<close>

lemma cool_entry:
  assumes "state (tick c inp) = STATE_COOL"
  shows "state c = STATE_HOLD \<and> temp (tick c inp) = START_TEMP \<and>
         ramp (tick c inp) = COOL_RAMP"
proof -
  have "state c \<noteq> STATE_COOL" using assms tick_cool [of c inp] by auto
  with assms tick_phase [of c inp] have h: "state c = STATE_HOLD"
    by (cases "state c") auto
  with assms show ?thesis
    by (auto simp: tick_hold Let_def split: option.splits if_splits)
qed

lemma cool_reached:
  assumes "state (control_loop init inps) = STATE_COOL"
  shows "temp (control_loop init inps) = START_TEMP \<and>
         ramp (control_loop init inps) = COOL_RAMP"
proof (cases inps rule: rev_cases)
  case Nil
  with assms show ?thesis by (simp add: init_def)
next
  case (snoc xs x)
  have nd: "state init \<noteq> STATE_DONE" by (simp add: init_def)
  from control_loop_snoc [OF nd, of xs x] assms snoc
  have "control_loop init inps = tick (control_loop init xs) x"
    by (auto split: if_splits)
  with assms cool_entry [of "control_loop init xs" x] show ?thesis by simp
qed

section \<open>The claims\<close>

text \<open>
  C2. Whatever the inputs, the phases a run goes through form a forward chain: from one
  tick to the next the phase stays or moves to the immediately next phase of
  \<open>STATE_LINEAR\<close>, \<open>STATE_NONLINEAR\<close>, \<open>STATE_HOLD\<close>, \<open>STATE_COOL\<close>, \<open>STATE_DONE\<close>,
  and no tick follows a context whose phase is \<open>STATE_DONE\<close>: the loop returns the last
  context of its trace, and further inputs are not consumed once it is done.
\<close>

theorem phase_order:
  assumes "state c \<noteq> STATE_DONE"
  shows "forward_chain (map state (c # loop_trace c inps)) \<and>
         control_loop c inps = last (c # loop_trace c inps) \<and>
         (state (control_loop c inps) = STATE_DONE \<longrightarrow>
            control_loop c (inps @ later) = control_loop c inps)"
  using assms loop_trace_chain [of c inps] control_loop_last [of c inps]
    control_loop_done_append [of c inps later]
  by simp

theorem phase_order_witness:
  "state init \<noteq> STATE_DONE \<and>
   forward_chain (map state (init # loop_trace init full_run)) \<and>
   map state (init # loop_trace init full_run) =
     [STATE_LINEAR, STATE_NONLINEAR, STATE_NONLINEAR, STATE_NONLINEAR, STATE_HOLD,
      STATE_COOL, STATE_DONE] \<and>
   state (control_loop init full_run) = STATE_DONE \<and>
   control_loop init (full_run @ [idle_input]) = control_loop init full_run"
proof -
  have h: "state init \<noteq> STATE_DONE" by (simp add: init_def)
  have l: "state init = STATE_LINEAR" by (simp add: init_def)
  from phase_order [OF h, of full_run "[idle_input]"] complete_run h l
  show ?thesis by simp
qed

text \<open>
  C7. A tick in \<open>STATE_LINEAR\<close> adds the fast ramp times the tick length (one degree)
  to the target. With a measured slope of at least \<open>S_REF\<close> it moves to
  \<open>STATE_NONLINEAR\<close>, resets the ramp to 0, leaves the incremented target as it is and
  emits a non-empty note; with a smaller slope it stays, keeps the fast ramp and emits
  no note. So a run is still in \<open>STATE_LINEAR\<close> exactly as long as no tick has measured
  a slope of at least \<open>S_REF\<close>: the transition fires on the first such tick.
\<close>

theorem linear_phase:
  assumes "state c = STATE_LINEAR"
  shows "temp (tick c inp) = temp c + FAST_RAMP * dt_minutes \<and>
         (S_REF \<le> s_meas c inp \<longrightarrow>
            state (tick c inp) = STATE_NONLINEAR \<and> ramp (tick c inp) = 0 \<and>
            notes_out (tick c inp) \<noteq> []) \<and>
         (s_meas c inp < S_REF \<longrightarrow>
            state (tick c inp) = STATE_LINEAR \<and> ramp (tick c inp) = FAST_RAMP \<and>
            notes_out (tick c inp) = []) \<and>
         (state (control_loop c inps) = STATE_LINEAR \<longleftrightarrow>
            (\<forall>k < length inps. s_meas (control_loop c (take k inps)) (inps ! k) < S_REF))"
  using assms linear_until [of c inps] by (simp add: tick_linear arrow_def)

theorem linear_phase_witness:
  "state init = STATE_LINEAR \<and> S_REF \<le> s_meas init rising_input \<and>
   temp (tick init rising_input) = 46 \<and> state (tick init rising_input) = STATE_NONLINEAR \<and>
   ramp (tick init rising_input) = 0 \<and> notes_out (tick init rising_input) \<noteq> [] \<and>
   s_meas init idle_input < S_REF \<and> temp (tick init idle_input) = 46 \<and>
   state (tick init idle_input) = STATE_LINEAR \<and> ramp (tick init idle_input) = 2"
proof -
  have h: "state init = STATE_LINEAR" by (simp add: init_def)
  have r: "S_REF \<le> s_meas init rising_input"
    by (simp add: s_meas_rising config_defs)
  have i: "s_meas init idle_input < S_REF"
    by (simp add: s_meas_idle init_def config_defs)
  have t: "temp init + FAST_RAMP * dt_minutes = 46"
    by (simp add: init_def config_defs dt_minutes_def)
  from linear_phase [OF h, of rising_input "[]"] linear_phase [OF h, of idle_input "[]"]
    h r i t
  show ?thesis by (simp add: FAST_RAMP_def)
qed

text \<open>
  C5. A tick in \<open>STATE_HOLD\<close> moves to \<open>STATE_COOL\<close> exactly when, on the history of
  that tick, the range over the last 10 minutes is defined and below 0.05 AU and the
  absolute value of the 10-minute slope the controller uses (the regression slope, or
  0 when that is undefined) is below 0.005 AU/min. The transition sets the cool rate
  and the start temperature; a tick that does not transition stays in \<open>STATE_HOLD\<close>
  with the ramp at 0 and the target at \<open>MAX_TEMP\<close>.
\<close>

theorem hold_stability_gate:
  assumes "state c = STATE_HOLD"
  shows "(state (tick c inp) = STATE_COOL \<longleftrightarrow>
            (\<exists>r. range_over_window (collect (history c) (readings inp)) (now_range inp) 10
                   = Some r \<and> r < 5 / 100) \<and>
            \<bar>or_zero (slope_over_window (collect (history c) (readings inp)) (now_s10 inp)
                 600)\<bar> < 5 / 1000) \<and>
         (state (tick c inp) = STATE_COOL \<longrightarrow>
            ramp (tick c inp) = COOL_RAMP \<and> temp (tick c inp) = START_TEMP) \<and>
         (state (tick c inp) \<noteq> STATE_COOL \<longrightarrow>
            state (tick c inp) = STATE_HOLD \<and> ramp (tick c inp) = 0 \<and>
            temp (tick c inp) = MAX_TEMP)"
  using assms
  by (auto simp: tick_hold Let_def STABILITY_WINDOW_MIN_def STABILITY_MAX_RANGE_AU_def
        STABILITY_MAX_SLOPE_def split: option.splits)

theorem hold_stability_gate_witness:
  "state (init\<lparr>state := STATE_HOLD\<rparr>) = STATE_HOLD \<and>
   state (tick (init\<lparr>state := STATE_HOLD\<rparr>) in_gate_input) = STATE_COOL \<and>
   ramp (tick (init\<lparr>state := STATE_HOLD\<rparr>) in_gate_input) = - 1 \<and>
   temp (tick (init\<lparr>state := STATE_HOLD\<rparr>) in_gate_input) = 45 \<and>
   state (tick (init\<lparr>state := STATE_HOLD\<rparr>) out_gate_input) = STATE_HOLD \<and>
   ramp (tick (init\<lparr>state := STATE_HOLD\<rparr>) out_gate_input) = 0 \<and>
   temp (tick (init\<lparr>state := STATE_HOLD\<rparr>) out_gate_input) = 100"
proof -
  let ?c = "init\<lparr>state := STATE_HOLD\<rparr>"
  have h: "state ?c = STATE_HOLD" by simp
  have e: "history ?c = []" by (simp add: init_def)
  have ten: "STABILITY_WINDOW_MIN = 10" by (simp add: STABILITY_WINDOW_MIN_def)
  have "range_over_window (collect (history ?c) (readings in_gate_input))
          (now_range in_gate_input) 10 = Some (4 / 100) \<and> (4 / 100 :: real) < 5 / 100"
    using in_gate_stats(1) by (simp add: e ten)
  then have in_range: "\<exists>r. range_over_window (collect (history ?c) (readings in_gate_input))
          (now_range in_gate_input) 10 = Some r \<and> r < 5 / 100"
    by blast
  have in_slope: "\<bar>or_zero (slope_over_window (collect (history ?c) (readings in_gate_input))
          (now_s10 in_gate_input) 600)\<bar> < 5 / 1000"
    using in_gate_stats(2) by (simp add: e or_zero_def)
  have cool: "state (tick ?c in_gate_input) = STATE_COOL"
    using hold_stability_gate [OF h, of in_gate_input] in_range in_slope by blast
  have out_range: "\<not> (\<exists>r. range_over_window (collect (history ?c) (readings out_gate_input))
          (now_range out_gate_input) 10 = Some r \<and> r < 5 / 100)"
    using out_gate_stats(1) by (auto simp: e ten)
  have stay: "state (tick ?c out_gate_input) \<noteq> STATE_COOL"
    using hold_stability_gate [OF h, of out_gate_input] out_range by blast
  from hold_stability_gate [OF h, of in_gate_input] hold_stability_gate [OF h, of out_gate_input]
    cool stay h
  show ?thesis by (simp add: COOL_RAMP_def START_TEMP_def MAX_TEMP_def)
qed

text \<open>
  C10. In \<open>STATE_HOLD\<close>, when the 10-minute slope is undefined the controller uses 0 in
  its place, so the slope half of the gate holds: with a defined range below the
  threshold the tick moves to \<open>STATE_COOL\<close>.
\<close>

theorem hold_undefined_slope:
  assumes "state c = STATE_HOLD"
    and "slope_over_window (collect (history c) (readings inp)) (now_s10 inp)
           (STABILITY_WINDOW_MIN * 60) = None"
    and "range_over_window (collect (history c) (readings inp)) (now_range inp)
           STABILITY_WINDOW_MIN = Some r"
    and "r < STABILITY_MAX_RANGE_AU"
  shows "or_zero (slope_over_window (collect (history c) (readings inp)) (now_s10 inp)
           (STABILITY_WINDOW_MIN * 60)) = 0 \<and>
         \<bar>0 :: real\<bar> < STABILITY_MAX_SLOPE \<and>
         state (tick c inp) = STATE_COOL"
  using assms
  by (simp add: tick_hold Let_def or_zero_def STABILITY_MAX_SLOPE_def)

theorem hold_undefined_slope_witness:
  "state (init\<lparr>state := STATE_HOLD\<rparr>) = STATE_HOLD \<and>
   slope_over_window (collect (history (init\<lparr>state := STATE_HOLD\<rparr>)) (readings single_input))
     (now_s10 single_input) (STABILITY_WINDOW_MIN * 60) = None \<and>
   range_over_window (collect (history (init\<lparr>state := STATE_HOLD\<rparr>)) (readings single_input))
     (now_range single_input) STABILITY_WINDOW_MIN = Some 0 \<and>
   0 < STABILITY_MAX_RANGE_AU \<and>
   state (tick (init\<lparr>state := STATE_HOLD\<rparr>) single_input) = STATE_COOL"
proof -
  let ?c = "init\<lparr>state := STATE_HOLD\<rparr>"
  have h: "state ?c = STATE_HOLD" by simp
  have e: "history ?c = []" by (simp add: init_def)
  have s: "slope_over_window (collect (history ?c) (readings single_input))
     (now_s10 single_input) (STABILITY_WINDOW_MIN * 60) = None"
    using single_stats(2) by (simp add: e STABILITY_WINDOW_MIN_def)
  have r: "range_over_window (collect (history ?c) (readings single_input))
     (now_range single_input) STABILITY_WINDOW_MIN = Some 0"
    using single_stats(1) by (simp add: e)
  have g: "0 < STABILITY_MAX_RANGE_AU" by (simp add: STABILITY_MAX_RANGE_AU_def)
  from hold_undefined_slope [OF h s r g] h s r g show ?thesis by simp
qed

text \<open>
  C6, at a run that reaches the cool-down: \<open>full_run\<close>. Before its fifth tick the phase
  is \<open>STATE_HOLD\<close> with the target at 100; that tick, the transition, sets the target
  to 45 at once (a step of 55 degrees, where one tick at the cool rate is half a
  degree) and the ramp to the cool rate. The sixth tick is the only one run in
  \<open>STATE_COOL\<close>: it finds the target at \<open>START_TEMP\<close> already, sets the ramp to 0 and
  ends the run in \<open>STATE_DONE\<close>. No tick of the phase has the cool rate as its ramp
  and none lowers the target. (\<open>cool_entry\<close>, \<open>cool_reached\<close> and \<open>tick_cool\<close> above
  say the same of every run.)
\<close>

theorem cool_without_ramp_down:
  "state (control_loop init (take 4 full_run)) = STATE_HOLD \<and>
   temp (control_loop init (take 4 full_run)) = 100 \<and>
   state (control_loop init (take 5 full_run)) = STATE_COOL \<and>
   temp (control_loop init (take 5 full_run)) = 45 \<and>
   ramp (control_loop init (take 5 full_run)) = COOL_RAMP \<and>
   temp (control_loop init (take 4 full_run)) + COOL_RAMP * dt_minutes = 995 / 10 \<and>
   state (control_loop init full_run) = STATE_DONE \<and>
   temp (control_loop init full_run) = 45 \<and>
   ramp (control_loop init full_run) = 0 \<and>
   length (filter (\<lambda>c. state c = STATE_COOL) (init # loop_trace init full_run)) = 1"
  using run_steps
  by (simp add: full_run_def Let_def init_def START_TEMP_def MAX_TEMP_def COOL_RAMP_def
        dt_minutes_def)

text \<open>
  C3. A tick in \<open>STATE_NONLINEAR\<close> stores the integral clamped to [-0.01, 0.01] and the
  error \<open>S_REF - s\<close> as the new accumulator and previous error; the ramp it computes
  is \<open>80 e + 10 I + 5 d\<close> with \<open>d = (e - previous error) / dt_minutes\<close>, clamped to
  [-10, \<open>MAX_RAMP\<close>], and the target it computes is the old target plus ramp times
  \<open>dt_minutes\<close>, clamped to [\<open>START_TEMP\<close>, \<open>MAX_TEMP\<close>]. These are the ramp and the
  target of the tick unless the plateau transition of the same tick replaces them by
  0 and \<open>MAX_TEMP\<close>, which happens only on a qualifying tick.
\<close>

theorem nonlinear_pid_update:
  assumes "state c = STATE_NONLINEAR"
  shows "pid (tick c inp) = Some (spec_integral c inp, spec_error c inp) \<and>
         (state (tick c inp) = STATE_NONLINEAR \<longrightarrow>
            ramp (tick c inp) = spec_ramp c inp \<and>
            temp (tick c inp) = spec_temp_target c inp) \<and>
         (state (tick c inp) \<noteq> STATE_NONLINEAR \<longrightarrow>
            state (tick c inp) = STATE_HOLD \<and> plateau_qualifies c inp \<and>
            ramp (tick c inp) = 0 \<and> temp (tick c inp) = MAX_TEMP)"
  using assms
  by (simp add: nonlinear_pid nonlinear_state nonlinear_ramp nonlinear_temp)

theorem nonlinear_pid_update_witness:
  "state entered = STATE_NONLINEAR \<and>
   pid (tick entered falling_input) = Some (1 / 100, 3601 / 300) \<and>
   state (tick entered falling_input) = STATE_NONLINEAR \<and>
   ramp (tick entered falling_input) = 10 \<and> temp (tick entered falling_input) = 50"
proof -
  have h: "state entered = STATE_NONLINEAR" by (simp add: entered_def)
  have z: "plateau_counter entered = 0" by (simp add: entered_def init_def)
  have s: "state (tick entered falling_input) = STATE_NONLINEAR"
    using h z by (simp add: nonlinear_state)
  from nonlinear_pid_update [OF h, of falling_input] h s entered_falling
  show ?thesis by simp
qed

text \<open>
  C4. A tick in \<open>STATE_NONLINEAR\<close> adds 1 to the plateau counter when it qualifies and
  sets it to 0 otherwise; it moves to \<open>STATE_HOLD\<close>, with ramp 0 and target
  \<open>MAX_TEMP\<close>, exactly when it qualifies and brings the counter to 3. Starting from
  a counter of 0, the first two ticks never leave the phase and the third does exactly
  when all three qualify. In a run from \<open>init\<close> the counter is below 3 before every
  tick of the phase (and 0 on entering it), so the transition fires on the third
  consecutive qualifying tick and not before.
\<close>

theorem plateau_detection:
  assumes "state c = STATE_NONLINEAR"
  shows "plateau_counter (tick c inp) =
           (if plateau_qualifies c inp then plateau_counter c + 1 else 0) \<and>
         (state (tick c inp) = STATE_HOLD \<longleftrightarrow>
            plateau_qualifies c inp \<and> 3 \<le> plateau_counter c + 1) \<and>
         (state (tick c inp) = STATE_HOLD \<longrightarrow>
            ramp (tick c inp) = 0 \<and> temp (tick c inp) = MAX_TEMP) \<and>
         (plateau_counter c = 0 \<longrightarrow>
            state (tick c i1) = STATE_NONLINEAR \<and>
            state (tick (tick c i1) i2) = STATE_NONLINEAR \<and>
            (state (tick (tick (tick c i1) i2) i3) = STATE_HOLD \<longleftrightarrow>
               plateau_qualifies c i1 \<and> plateau_qualifies (tick c i1) i2 \<and>
               plateau_qualifies (tick (tick c i1) i2) i3)) \<and>
         (state (control_loop init inps) = STATE_LINEAR \<longrightarrow>
            plateau_counter (control_loop init inps) = 0) \<and>
         (state (control_loop init inps) = STATE_NONLINEAR \<longrightarrow>
            plateau_counter (control_loop init inps) < 3)"
proof -
  have one: "plateau_counter (tick c inp) =
           (if plateau_qualifies c inp then plateau_counter c + 1 else 0)"
    using assms by (rule nonlinear_counter)
  have hold: "state (tick c inp) = STATE_HOLD \<longleftrightarrow>
            plateau_qualifies c inp \<and> 3 \<le> plateau_counter c + 1"
    using assms by (auto simp: nonlinear_state)
  have vals: "state (tick c inp) = STATE_HOLD \<longrightarrow>
            ramp (tick c inp) = 0 \<and> temp (tick c inp) = MAX_TEMP"
    using assms by (simp add: nonlinear_state nonlinear_ramp nonlinear_temp)
  have three: "state (tick c i1) = STATE_NONLINEAR \<and>
            state (tick (tick c i1) i2) = STATE_NONLINEAR \<and>
            (state (tick (tick (tick c i1) i2) i3) = STATE_HOLD \<longleftrightarrow>
               plateau_qualifies c i1 \<and> plateau_qualifies (tick c i1) i2 \<and>
               plateau_qualifies (tick (tick c i1) i2) i3)"
    if zero: "plateau_counter c = 0"
  proof -
    have s1: "state (tick c i1) = STATE_NONLINEAR"
      using assms zero by (simp add: nonlinear_state)
    have c1: "plateau_counter (tick c i1) = (if plateau_qualifies c i1 then 1 else 0)"
      using assms zero by (simp add: nonlinear_counter)
    have s2: "state (tick (tick c i1) i2) = STATE_NONLINEAR"
      using s1 c1 by (simp add: nonlinear_state)
    have c2: "plateau_counter (tick (tick c i1) i2) =
        (if plateau_qualifies (tick c i1) i2 then (if plateau_qualifies c i1 then 2 else 1)
         else 0)"
      using s1 c1 by (simp add: nonlinear_counter)
    have s3: "state (tick (tick (tick c i1) i2) i3) = STATE_HOLD \<longleftrightarrow>
        plateau_qualifies c i1 \<and> plateau_qualifies (tick c i1) i2 \<and>
        plateau_qualifies (tick (tick c i1) i2) i3"
      using s2 c2 by (auto simp: nonlinear_state)
    from s1 s2 s3 show ?thesis by blast
  qed
  have inv: "loop_inv (control_loop init inps)"
    using loop_inv_init by (rule loop_inv_control_loop)
  have lin: "state (control_loop init inps) = STATE_LINEAR \<longrightarrow>
            plateau_counter (control_loop init inps) = 0"
    using inv by (auto simp: loop_inv_def split: if_splits)
  have non: "state (control_loop init inps) = STATE_NONLINEAR \<longrightarrow>
            plateau_counter (control_loop init inps) < 3"
    using inv by (auto simp: loop_inv_def PLATEAU_TICKS_def split: if_splits)
  from one hold vals three lin non show ?thesis by blast
qed

theorem plateau_detection_witness:
  "state at_ceiling = STATE_NONLINEAR \<and> plateau_counter at_ceiling = 0 \<and>
   plateau_qualifies at_ceiling idle_input \<and>
   plateau_qualifies (tick at_ceiling idle_input) idle_input \<and>
   plateau_qualifies (tick (tick at_ceiling idle_input) idle_input) idle_input \<and>
   plateau_counter (tick at_ceiling idle_input) = 1 \<and>
   state (tick at_ceiling idle_input) = STATE_NONLINEAR \<and>
   state (tick (tick at_ceiling idle_input) idle_input) = STATE_NONLINEAR \<and>
   state (tick (tick (tick at_ceiling idle_input) idle_input) idle_input) = STATE_HOLD"
proof -
  let ?c1 = "tick at_ceiling idle_input"
  let ?c2 = "tick ?c1 idle_input"
  have h: "state at_ceiling = STATE_NONLINEAR" by (simp add: at_ceiling_def)
  have z: "plateau_counter at_ceiling = 0" by (simp add: at_ceiling_def init_def)
  have f0: "history at_ceiling = []" "temp at_ceiling = MAX_TEMP" "pid at_ceiling = None"
    by (simp_all add: at_ceiling_def init_def)
  from idle_at_ceiling [of at_ceiling 0] f0
  have q0: "plateau_qualifies at_ceiling idle_input"
    and t0: "spec_temp_target at_ceiling idle_input = MAX_TEMP"
    and p0: "spec_error at_ceiling idle_input = 1 / 300"
      "spec_integral at_ceiling idle_input = 1 / 600"
    by simp_all
  have s1: "state ?c1 = STATE_NONLINEAR" using h z by (simp add: nonlinear_state)
  have k1: "plateau_counter ?c1 = 1" using h z q0 by (simp add: nonlinear_counter)
  have f1: "history ?c1 = []" "temp ?c1 = MAX_TEMP" "pid ?c1 = Some (1 / 600, 1 / 300)"
    using h z f0 t0 p0 by (simp_all add: tick_idle_history nonlinear_temp nonlinear_pid)
  from idle_at_ceiling [of ?c1 1] f1
  have q1: "plateau_qualifies ?c1 idle_input"
    and t1: "spec_temp_target ?c1 idle_input = MAX_TEMP"
    and p1: "spec_error ?c1 idle_input = 1 / 300" "spec_integral ?c1 idle_input = 2 / 600"
    by simp_all
  have f2: "history ?c2 = []" "temp ?c2 = MAX_TEMP" "pid ?c2 = Some (2 / 600, 1 / 300)"
    using s1 k1 f1 t1 p1 by (simp_all add: tick_idle_history nonlinear_temp nonlinear_pid)
  from idle_at_ceiling [of ?c2 2] f2
  have q2: "plateau_qualifies ?c2 idle_input" by simp
  from plateau_detection [OF h, of idle_input idle_input idle_input idle_input "[]"]
    h z q0 q1 q2 k1
  show ?thesis by simp
qed

text \<open>
  C1, at the input where the code leaves the interval: 56 ticks without a reading.
  The slope stays at its default 0, below \<open>S_REF\<close>, the phase stays \<open>STATE_LINEAR\<close>,
  and the target, raised by one degree per tick and never clamped in that phase, is
  101 degrees, above \<open>MAX_TEMP\<close>.
\<close>

theorem linear_overshoot:
  "state (control_loop init (replicate 56 idle_input)) = STATE_LINEAR \<and>
   temp (control_loop init (replicate 56 idle_input)) = 101 \<and>
   MAX_TEMP < temp (control_loop init (replicate 56 idle_input))"
proof -
  have "state init = STATE_LINEAR" "history init = []" by (simp_all add: init_def)
  from idle_run [OF this, of 56] show ?thesis
    by (simp add: init_def START_TEMP_def MAX_TEMP_def)
qed

text \<open>
  C8, as the code has it. The tick that moves from \<open>STATE_LINEAR\<close> to
  \<open>STATE_NONLINEAR\<close> leaves the PID variables unbound, as does every tick outside
  \<open>STATE_NONLINEAR\<close> leave them as they are. The first tick in \<open>STATE_NONLINEAR\<close>
  finds them unbound and runs as if both were 0; every tick in \<open>STATE_NONLINEAR\<close>
  that finds them bound to \<open>i\<close> and \<open>p\<close> accumulates on \<open>i\<close>, takes the derivative
  against \<open>p\<close> and stores the new pair. Once bound they are never unbound, and in a
  run from \<open>init\<close> they are unbound as long as the phase is \<open>STATE_LINEAR\<close>: they are
  initialised once, by the first tick of the feedback phase.
\<close>

theorem pid_lazy_init:
  "(state c \<noteq> STATE_NONLINEAR \<longrightarrow> pid (tick c inp) = pid c) \<and>
   (state c = STATE_NONLINEAR \<and> pid c = None \<longrightarrow>
      tick c inp = tick (c\<lparr>pid := Some (0, 0)\<rparr>) inp) \<and>
   (state c = STATE_NONLINEAR \<and> pid c = Some (i, p) \<longrightarrow>
      pid (tick c inp) =
        Some (clamp_to (- (1 / 100)) (1 / 100) (i + (S_REF - s_meas c inp) * dt_minutes),
              S_REF - s_meas c inp) \<and>
      (state (tick c inp) = STATE_NONLINEAR \<longrightarrow>
         ramp (tick c inp) =
           clamp_to (- 10) MAX_RAMP
             (80 * (S_REF - s_meas c inp) +
              10 * clamp_to (- (1 / 100)) (1 / 100) (i + (S_REF - s_meas c inp) * dt_minutes) +
              5 * ((S_REF - s_meas c inp - p) / dt_minutes)))) \<and>
   (pid c \<noteq> None \<longrightarrow> pid (tick c inp) \<noteq> None) \<and>
   (state (control_loop init inps) = STATE_LINEAR \<longrightarrow> pid (control_loop init inps) = None)"
proof -
  have other: "state c \<noteq> STATE_NONLINEAR \<longrightarrow> pid (tick c inp) = pid c"
    by (simp add: tick_pid_other)
  have first: "state c = STATE_NONLINEAR \<and> pid c = None \<longrightarrow>
      tick c inp = tick (c\<lparr>pid := Some (0, 0)\<rparr>) inp"
    using tick_unbound_pid [of c inp] by blast
  have later: "pid (tick c inp) =
        Some (clamp_to (- (1 / 100)) (1 / 100) (i + (S_REF - s_meas c inp) * dt_minutes),
              S_REF - s_meas c inp) \<and>
      (state (tick c inp) = STATE_NONLINEAR \<longrightarrow>
         ramp (tick c inp) =
           clamp_to (- 10) MAX_RAMP
             (80 * (S_REF - s_meas c inp) +
              10 * clamp_to (- (1 / 100)) (1 / 100) (i + (S_REF - s_meas c inp) * dt_minutes) +
              5 * ((S_REF - s_meas c inp - p) / dt_minutes)))"
    if n: "state c = STATE_NONLINEAR" and b: "pid c = Some (i, p)"
  proof -
    have e: "spec_error c inp = S_REF - s_meas c inp" by (simp add: spec_error_def)
    have a: "spec_integral c inp =
        clamp_to (- (1 / 100)) (1 / 100) (i + (S_REF - s_meas c inp) * dt_minutes)"
      using b by (simp add: spec_integral_def integral_in_def e)
    have r: "spec_ramp c inp =
        clamp_to (- 10) MAX_RAMP
          (80 * (S_REF - s_meas c inp) +
           10 * clamp_to (- (1 / 100)) (1 / 100) (i + (S_REF - s_meas c inp) * dt_minutes) +
           5 * ((S_REF - s_meas c inp - p) / dt_minutes))"
      using b by (simp add: spec_ramp_def spec_derivative_def prev_error_in_def e a)
    have "pid (tick c inp) = Some (spec_integral c inp, spec_error c inp)"
      using n by (rule nonlinear_pid)
    moreover have "state (tick c inp) = STATE_NONLINEAR \<longrightarrow>
        ramp (tick c inp) = spec_ramp c inp"
      using n by (simp add: nonlinear_state nonlinear_ramp)
    ultimately show ?thesis by (simp add: e a r)
  qed
  have keep: "pid c \<noteq> None \<longrightarrow> pid (tick c inp) \<noteq> None"
    using tick_pid_other [of c inp] nonlinear_pid [of c inp]
    by (cases "state c = STATE_NONLINEAR") auto
  have "loop_inv (control_loop init inps)"
    using loop_inv_init by (rule loop_inv_control_loop)
  then have lin: "state (control_loop init inps) = STATE_LINEAR \<longrightarrow>
      pid (control_loop init inps) = None"
    by (auto simp: loop_inv_def split: if_splits)
  from other first later keep lin show ?thesis by blast
qed

theorem pid_lazy_init_witness:
  "state entered = STATE_NONLINEAR \<and> pid entered = None \<and>
   tick entered idle_input = tick (entered\<lparr>pid := Some (0, 0)\<rparr>) idle_input \<and>
   pid (tick entered idle_input) = Some (1 / 600, 1 / 300) \<and>
   state (tick entered idle_input) = STATE_NONLINEAR \<and>
   pid (tick (tick entered idle_input) idle_input) = Some (1 / 300, 1 / 300)"
proof -
  let ?c1 = "tick entered idle_input"
  have h: "state entered = STATE_NONLINEAR" by (simp add: entered_def)
  have u: "pid entered = None" by (simp add: entered_def init_def)
  have e: "history entered = []" by (simp add: entered_def init_def)
  have z: "plateau_counter entered = 0" by (simp add: entered_def init_def)
  have first: "tick entered idle_input = tick (entered\<lparr>pid := Some (0, 0)\<rparr>) idle_input"
    using pid_lazy_init [of entered idle_input 0 0 "[]"] h u by blast
  have s1: "state ?c1 = STATE_NONLINEAR" using h z by (simp add: nonlinear_state)
  have p1: "pid ?c1 = Some (1 / 600, 1 / 300)"
    using h u e by (simp add: nonlinear_pid spec_defs s_meas_idle config_defs)
  have e1: "history ?c1 = []" using e by (rule tick_idle_history)
  have "pid (tick ?c1 idle_input) =
      Some (clamp_to (- (1 / 100)) (1 / 100)
              (1 / 600 + (S_REF - s_meas ?c1 idle_input) * dt_minutes),
            S_REF - s_meas ?c1 idle_input)"
    using pid_lazy_init [of ?c1 idle_input "1 / 600" "1 / 300" "[]"] s1 p1 by blast
  then have p2: "pid (tick ?c1 idle_input) = Some (1 / 300, 1 / 300)"
    using e1 by (simp add: s_meas_idle config_defs clamp_to_def dt_minutes_def)
  from h u first p1 s1 p2 show ?thesis by blast
qed

text \<open>
  The tick that makes the transition from \<open>STATE_LINEAR\<close> to \<open>STATE_NONLINEAR\<close> does
  not initialise the PID variables: after it they are still unbound.
\<close>

theorem pid_unbound_after_transition:
  "state init = STATE_LINEAR \<and> state (tick init rising_input) = STATE_NONLINEAR \<and>
   pid (tick init rising_input) = None"
proof -
  have h: "state init = STATE_LINEAR" by (simp add: init_def)
  have r: "S_REF \<le> s_meas init rising_input" by (simp add: s_meas_rising config_defs)
  show ?thesis using h r by (simp add: tick_linear init_def)
qed

text \<open>
  C9. \<open>slope_over_window\<close> returns no value exactly when fewer than six readings
  fall in the window or the variance of their times is zero; with six or more readings
  and a non-zero variance it returns the least-squares slope of the values against the
  minutes elapsed since the earliest time of the window. The variance of the times of
  a non-empty window is zero exactly when all of them equal the first.
\<close>

theorem slope_defined_iff:
  "(slope_over_window h now w = None \<longleftrightarrow>
      length (in_window h now w) < 6 \<or> time_variance (map fst (in_window h now w)) = 0) \<and>
   (6 \<le> length (in_window h now w) \<and> time_variance (map fst (in_window h now w)) \<noteq> 0 \<longrightarrow>
      slope_over_window h now w =
        Some (ols_slope (elapsed_minutes (map fst (in_window h now w)))
                (map snd (in_window h now w)))) \<and>
   (in_window h now w \<noteq> [] \<longrightarrow>
      (time_variance (map fst (in_window h now w)) = 0 \<longleftrightarrow>
         (\<forall>t \<in> set (map fst (in_window h now w)). t = fst (hd (in_window h now w)))))"
proof -
  let ?pts = "in_window h now w"
  let ?ts = "map fst ?pts"
  have undefined: "slope_over_window h now w = None \<longleftrightarrow>
      length ?pts < 6 \<or> time_variance ?ts = 0"
  proof (cases "length ?pts < 6")
    case True
    then show ?thesis by (simp add: slope_over_window_canonical Let_def)
  next
    case False
    then have "?ts \<noteq> []" by auto
    from den_zero_iff [OF this] False show ?thesis
      by (simp add: slope_over_window_canonical Let_def)
  qed
  have defined: "slope_over_window h now w = Some (ols_slope (elapsed_minutes ?ts) (map snd ?pts))"
    if "6 \<le> length ?pts" and "time_variance ?ts \<noteq> 0"
  proof -
    from that(1) have ne: "?ts \<noteq> []" by auto
    from den_zero_iff [OF ne] that show ?thesis
      by (simp add: slope_over_window_canonical Let_def ols_slope_elapsed [OF ne])
  qed
  have equal: "time_variance ?ts = 0 \<longleftrightarrow> (\<forall>t \<in> set ?ts. t = fst (hd ?pts))"
    if "?pts \<noteq> []"
  proof -
    from that have ne: "?ts \<noteq> []" by simp
    from variance_zero_iff [OF ne] all_equal_mean [OF ne] that show ?thesis
      by (simp add: hd_map)
  qed
  from undefined defined equal show ?thesis by blast
qed

theorem slope_defined_iff_witness:
  "6 \<le> length (in_window (readings rising_input) 30 30) \<and>
   time_variance (map fst (in_window (readings rising_input) 30 30)) \<noteq> 0 \<and>
   slope_over_window (readings rising_input) 30 30 = Some 12 \<and>
   ols_slope (elapsed_minutes (map fst (in_window (readings rising_input) 30 30)))
     (map snd (in_window (readings rising_input) 30 30)) = 12 \<and>
   length (in_window (readings rising_input) 30 10) < 6 \<and>
   slope_over_window (readings rising_input) 30 10 = None"
proof -
  let ?h = "readings rising_input"
  have w: "in_window ?h 30 30 = ?h"
    by (simp add: in_window_def rising_input_def)
  have l: "6 \<le> length (in_window ?h 30 30)"
    unfolding w by (simp add: rising_input_def)
  have v: "time_variance (map fst (in_window ?h 30 30)) \<noteq> 0"
    unfolding w by (simp add: rising_input_def time_variance_def mean_def power2_eq_square)
  have s: "slope_over_window ?h 30 30 = Some 12"
    by (simp add: rising_input_def slope_over_window_def Let_def power2_eq_square)
  have f: "length (in_window ?h 30 10) < 6"
    by (simp add: in_window_def rising_input_def)
  from slope_defined_iff [of ?h 30 30] slope_defined_iff [of ?h 30 10] l v s f
  show ?thesis by simp
qed

end
